theory Spec2Isabelle
  imports Main "HOL-Library.Finite_Map" "HOL-Library.List_Lexorder" "HOL-Library.Char_ord"
begin

section \<open>Host records (host.go)\<close>

text \<open>
  The structs of host.go. A Go map is finite and has unique keys, so \<open>HostType\<close>
  is a finite map. Strings are byte sequences; their order (\<open>List_Lexorder\<close> over
  \<open>Char_ord\<close>) is the byte-wise lexicographic order that Go's \<open>sort.Strings\<close> uses.
  The back pointer \<open>repo\<close> of \<open>HostInfo\<close> is read by no function of host.go and is left out.
\<close>

datatype Host = Host (FQDN: string) (Summary: string) (Kind: string) (Primary: bool)

datatype Category = Category (Summary: string) (Primary: bool) (Hosts: "Host list")

type_synonym HostType = "(string, Category) fmap"

datatype HostInfo =
  HostInfo (RawType: string) (RawSummary: string) (Types: HostType) (id': string) (path': string)

text \<open>Run-time panics of the Go runtime that the functions below can raise.\<close>

datatype panic = IndexOutOfRange | NilDereference | SliceBoundsOutOfRange

text \<open>
  What a call of \<open>HostInfo.Execute\<close> does before control leaves it:
  \<^item> \<open>Printed rows\<close>: \<open>PrintType\<close> wrote the listing, the call returns;
  \<^item> \<open>HostExecute h extra\<close>: \<open>h.Execute(extra...)\<close> was called (the ssh session);
  \<^item> \<open>LogFatal msg\<close>: \<open>log.Fatal\<close> wrote \<open>msg\<close> and exited with status 1;
  \<^item> \<open>Panicked p\<close>: the runtime panicked (diagnostic on stderr, exit status 2);
  \<^item> \<open>Exited lines n\<close>: the lines were printed, then \<open>os.Exit(n)\<close>;
  \<^item> \<open>Returned\<close>: the call returns having done nothing.
\<close>

datatype outcome =
    Printed "(string \<times> string \<times> (nat \<times> string \<times> bool \<times> string) list) list"
  | HostExecute Host "string list"
  | LogFatal string
  | Panicked panic
  | Exited "string list" nat
  | Returned

subsection \<open>Category.PrimaryHost, Category.GetHost, Host.hasHost\<close>

text \<open>
  \<open>PrimaryHost\<close>: the range loop returns (a pointer to a copy of) the first host
  whose flag is set; after the loop the function returns \<open>&c.Hosts[0]\<close>, which
  panics on an empty slice.
\<close>

definition PrimaryHost :: "Category \<Rightarrow> panic + Host" where
  "PrimaryHost c =
     (case find Host.Primary (Hosts c) of
        Some host \<Rightarrow> Inr host
      | None \<Rightarrow> (case Hosts c of [] \<Rightarrow> Inl IndexOutOfRange | h0 # _ \<Rightarrow> Inr h0))"

text \<open>
  \<open>GetHost\<close> returns a \<open>*Host\<close>: \<open>Some\<close> is a pointer to a host, \<open>None\<close> is
  the nil pointer that the bare \<open>return\<close> of the named result yields.
\<close>

definition GetHost :: "Category \<Rightarrow> string \<Rightarrow> Host option" where
  "GetHost c fqdn = find (\<lambda>host. FQDN host = fqdn) (Hosts c)"

text \<open>\<open>hasHost\<close> has a pointer receiver and reads \<open>h.FQDN\<close>: on nil that is a panic.\<close>

definition hasHost :: "Host option \<Rightarrow> panic + bool" where
  "hasHost h = (case h of None \<Rightarrow> Inl NilDereference | Some host \<Rightarrow> Inr (FQDN host \<noteq> []))"

subsection \<open>HostType.List, HostType.PrintType\<close>

definition List :: "HostType \<Rightarrow> string list" where
  "List h = sorted_list_of_fset (fmdom h)"

text \<open>\<open>h[t]\<close> on a Go map: the zero value when the key is missing.\<close>

definition Category_zero :: Category where
  "Category_zero = Category [] False []"

definition index :: "HostType \<Rightarrow> string \<Rightarrow> Category" where
  "index h t = (case fmlookup h t of Some cat \<Rightarrow> cat | None \<Rightarrow> Category_zero)"

text \<open>
  \<open>PrintType\<close>, as the rows it prints: per category of \<open>List\<close>, the name, the summary,
  and per host its index, FQDN, primary mark and summary. Colours and line wrapping
  come from external packages and are not part of the rows.
\<close>

definition PrintType :: "HostType \<Rightarrow> (string \<times> string \<times> (nat \<times> string \<times> bool \<times> string) list) list" where
  "PrintType h =
     map (\<lambda>t. let cat = index h t in
               (t, Category.Summary cat,
                map (\<lambda>(x, host). (x, FQDN host, Host.Primary host, Host.Summary host))
                    (enumerate 0 (Hosts cat))))
         (List h)"

subsection \<open>strconv.Atoi and strings.Join\<close>

text \<open>
  Go's \<open>strconv.Atoi\<close> for a 64-bit \<open>int\<close>: an optional sign, then at least one
  decimal digit and nothing else; a value outside the range of \<open>int\<close> is an error.
  \<open>None\<close> is the non-nil \<open>err\<close>.
\<close>

definition isDigit :: "char \<Rightarrow> bool" where
  "isDigit ch = (CHR ''0'' \<le> ch \<and> ch \<le> CHR ''9'')"

definition digitVal :: "char \<Rightarrow> int" where
  "digitVal ch = int (of_char ch) - 48"

definition decimal :: "string \<Rightarrow> int" where
  "decimal ds = foldl (\<lambda>n ch. n * 10 + digitVal ch) 0 ds"

definition Atoi :: "string \<Rightarrow> int option" where
  "Atoi s =
     (let neg = (s \<noteq> [] \<and> hd s = CHR ''-'');
          ds = (if s \<noteq> [] \<and> (hd s = CHR ''+'' \<or> hd s = CHR ''-'') then tl s else s)
      in if ds = [] \<or> \<not> list_all isDigit ds then None
         else let n = (if neg then - decimal ds else decimal ds)
              in if n < - (2 ^ 63) \<or> 2 ^ 63 - 1 < n then None else Some n)"

fun strings_Join :: "string list \<Rightarrow> string \<Rightarrow> string" where
  "strings_Join [] sep = []"
| "strings_Join [x] sep = x"
| "strings_Join (x # y # ys) sep = x @ sep @ strings_Join (y # ys) sep"

subsection \<open>HostInfo.Execute\<close>

text \<open>
  \<open>args\<close> is \<open>c.Args()\<close>. The switch on \<open>arglen\<close> has the cases 0 and 1, 2 and no
  default. \<open>fmt.Println\<close> separates its operands by a space, \<open>log.Fatal\<close> (as
  \<open>fmt.Sprint\<close>) puts none between two strings.
\<close>

definition HostInfo_Execute :: "HostInfo \<Rightarrow> string list \<Rightarrow> outcome" where
  "HostInfo_Execute h args =
     (let arglen = length args in
      if arglen = 0 then Printed (PrintType (Types h))
      else if arglen = 1 \<or> arglen = 2 then
        (let t = args ! 0 in
         case fmlookup (Types h) t of
           Some cat \<Rightarrow>
             if arglen = 1 then
               (case PrimaryHost cat of
                  Inl p \<Rightarrow> Panicked p
                | Inr host \<Rightarrow> HostExecute host [[]])
             else
               (case Atoi (args ! 1) of
                  None \<Rightarrow> LogFatal (''Non-integer argument:'' @ args ! 1)
                | Some x \<Rightarrow>
                    if 0 \<le> x \<and> x < int (length (Hosts cat))
                    then HostExecute (Hosts cat ! nat x) [[]]
                    else Panicked IndexOutOfRange)
         | None \<Rightarrow>
             Exited [''No such type: '' @ t,
                     ''Choices are: '' @ strings_Join (List (Types h)) '', ''] 1)
      else Returned)"

subsection \<open>The sample document\<close>

text \<open>The inventory document shipped with the repository (type host, five categories).\<close>

definition sample_master :: Category where
  "sample_master = Category ''Master database, read/write'' True
     [Host ''db1.cluster6.company.net'' [] [] True]"

definition sample_ro :: Category where
  "sample_ro = Category ''Read-only slaves'' False
     [Host ''db2.cluster3.company.net'' [] [] False,
      Host ''db5.cluster3.company.net'' [] [] False,
      Host ''db6.cluster3.company.net'' [] [] False,
      Host ''db4.cluster3.company.net'' ''Designated for long queries'' ''longquery'' True]"

definition sample_wal :: Category where
  "sample_wal = Category ''WAL archive storage machines'' False
     [Host ''db7.cluster3.company.net'' [] [] False]"

definition sample_standby :: Category where
  "sample_standby = Category ''Hot standby machines'' False
     [Host ''db8.cluster3.company.net'' [] [] True,
      Host ''db1.cluster3.company.net'' ''Hot standby, disaster recovery only'' ''disaster'' False]"

definition sample_task :: Category where
  "sample_task = Category ''task-only db machines'' False
     [Host ''taskdb1.cluster6.company.net'' [] [] False,
      Host ''taskdb2.cluster6.company.net'' [] [] False]"

definition sample :: HostInfo where
  "sample = HostInfo ''host'' ''PostgreSQL database machines''
     (fmap_of_list [(''master'', sample_master), (''ro'', sample_ro), (''wal'', sample_wal),
                    (''standby'', sample_standby), (''task'', sample_task)])
     ''db'' ''db.yaml''"

section \<open>Repositories (repo.go)\<close>

subsection \<open>Strings and paths\<close>

text \<open>
  \<open>strings.HasPrefix\<close>, \<open>strings.HasSuffix\<close> and \<open>filepath.Base\<close> of the Go library
  (separator \<open>/\<close>). \<open>filepath.Join\<close> is applied to a clean directory path and a file
  name, where it puts one separator between the two.
\<close>

definition HasPrefix :: "string \<Rightarrow> string \<Rightarrow> bool" where
  "HasPrefix s pre = (take (length pre) s = pre)"

definition HasSuffix :: "string \<Rightarrow> string \<Rightarrow> bool" where
  "HasSuffix s suf = (length suf \<le> length s \<and> drop (length s - length suf) s = suf)"

definition Base :: "string \<Rightarrow> string" where
  "Base p =
     (if p = [] then ''.''
      else let q = rev (dropWhile (\<lambda>ch. ch = CHR ''/'') (rev p));
               b = rev (takeWhile (\<lambda>ch. ch \<noteq> CHR ''/'') (rev q))
           in if b = [] then ''/'' else b)"

definition filepath_Join :: "string \<Rightarrow> string \<Rightarrow> string" where
  "filepath_Join dir name = dir @ ''/'' @ name"

text \<open>
  Modelled from the spec: \<open>asKey\<close> is called in repo.go and defined elsewhere in the
  repository. The identity derivation rule: the final path component, with a trailing
  \<open>.yaml\<close> stripped, used verbatim.
\<close>

definition asKey :: "string \<Rightarrow> string" where
  "asKey p = (let b = Base p in if HasSuffix b ''.yaml'' then take (length b - 5) b else b)"

subsection \<open>Repo and its listings\<close>

text \<open>
  Modelled from the spec: the struct \<open>Info\<close> is used in repo.go and declared elsewhere
  in the repository. repo.go reads its field \<open>ID\<close>, the identity of the document, and
  calls its method \<open>Execute\<close>; nothing else of a document is looked at.
\<close>

datatype Info = Info (ID: string)

text \<open>
  The struct \<open>Repo\<close>; the wait group is synchronisation only and has no field here.
  The zero value has nil maps, which read as empty maps.
\<close>

datatype Repo =
  Repo (Key: string) (Info: "(string, Info) fmap") (Control: "(string, Info) fmap")
       (Subrepos: "(string, Repo) fmap") (root: string)

definition Repo_zero :: Repo where
  "Repo_zero = Repo [] fmempty fmempty fmempty []"

text \<open>
  \<open>Keys\<close> and \<open>SubrepoKeys\<close> collect the \<open>ID\<close> (the \<open>Key\<close>) of every value of the
  map and sort the result; the order in which the map is ranged over does not matter.
\<close>

definition Keys :: "Repo \<Rightarrow> string list" where
  "Keys r = sort (map (\<lambda>(k, info). ID info) (sorted_list_of_fmap (Repo.Info r)))"

definition SubrepoKeys :: "Repo \<Rightarrow> string list" where
  "SubrepoKeys r = sort (map (\<lambda>(k, sub). Key sub) (sorted_list_of_fmap (Subrepos r)))"

subsection \<open>Repo.Execute\<close>

text \<open>
  What a call of \<open>Repo.Execute\<close> does:
  \<^item> \<open>InfoExecute info\<close>: \<open>info.Execute()\<close> was called, then the call returned;
  \<^item> \<open>Listed subs docs\<close>: the sub-repository keys (in blue), then the document keys
    were printed;
  \<^item> \<open>RepoPanicked p\<close>: the runtime panicked.
\<close>

datatype repo_outcome =
    InfoExecute Info
  | Listed "string list" "string list"
  | RepoPanicked panic

text \<open>
  \<open>repo, ok = repo.Subrepos[arg]\<close>: the comma-ok form assigns the zero value of
  \<open>Repo\<close> to \<open>repo\<close> when the key is missing. \<open>descend\<close> is the loop over the
  arguments followed by the printing after it; \<open>Repo_Execute\<close> takes \<open>c.Args()\<close> and
  drops its first element with \<open>[1:]\<close>, which panics on an empty slice.
\<close>

definition Subrepos_index :: "Repo \<Rightarrow> string \<Rightarrow> Repo \<times> bool" where
  "Subrepos_index repo arg =
     (case fmlookup (Subrepos repo) arg of Some sub \<Rightarrow> (sub, True) | None \<Rightarrow> (Repo_zero, False))"

definition listing :: "Repo \<Rightarrow> repo_outcome" where
  "listing repo = Listed (SubrepoKeys repo) (Keys repo)"

fun descend :: "Repo \<Rightarrow> string list \<Rightarrow> repo_outcome" where
  "descend repo [] = listing repo"
| "descend repo (arg # args) =
     (case fmlookup (Repo.Info repo) arg of
        Some info \<Rightarrow> InfoExecute info
      | None \<Rightarrow>
          (case Subrepos_index repo arg of
             (repo', ok) \<Rightarrow> if \<not> ok then listing repo' else descend repo' args))"

definition Repo_Execute :: "Repo \<Rightarrow> string list \<Rightarrow> repo_outcome" where
  "Repo_Execute r cargs =
     (case cargs of [] \<Rightarrow> RepoPanicked SliceBoundsOutOfRange | _ # args \<Rightarrow> descend r args)"

subsection \<open>The file system and filepath.Walk\<close>

text \<open>
  A file system entry, by its base name: a file, a directory with its entries in the
  order \<open>filepath.Walk\<close> reads them (sorted by name), or a name whose \<open>lstat\<close> fails
  with the given error. Reading the entries of a directory always succeeds here.
\<close>

datatype Entry = File string | Dir string "Entry list" | Broken string string

text \<open>
  \<open>filepath.Walk\<close> of the Go library. A \<open>WalkFunc\<close> gets the path, the file info and
  an error, and returns nil (\<open>Ok\<close>), \<open>SkipDir\<close> or another error; its effects are
  threaded through as a state. The file info is the entry itself; on an \<open>lstat\<close>
  error the library passes no file info, and the error is the third argument.
  \<open>walk\<close> calls the function on the entry and, for a directory, goes through its
  names; on a name whose \<open>lstat\<close> fails it is the error branch of \<open>Walk\<close> for the
  root. \<open>walkNames\<close> is the loop of \<open>walk\<close> over the names of a directory: \<open>SkipDir\<close>
  from a directory skips that directory only, \<open>SkipDir\<close> from a file ends the loop over
  the containing directory, and any other error ends the whole walk. \<open>Walk\<close> turns a
  final \<open>SkipDir\<close> into nil.
\<close>

datatype walkret = Ok | SkipDir | Error string

type_synonym 's WalkFunc = "string \<Rightarrow> Entry \<Rightarrow> string option \<Rightarrow> 's \<Rightarrow> walkret \<times> 's"

fun IsDir :: "Entry \<Rightarrow> bool" where
  "IsDir (Dir n es) = True"
| "IsDir e = False"

fun walk :: "'s WalkFunc \<Rightarrow> string \<Rightarrow> Entry \<Rightarrow> 's \<Rightarrow> walkret \<times> 's"
and walkNames :: "'s WalkFunc \<Rightarrow> string \<Rightarrow> Entry list \<Rightarrow> 's \<Rightarrow> walkret \<times> 's"
where
  "walk walkFn path (File n) s = walkFn path (File n) None s"
| "walk walkFn path (Broken n err) s = walkFn path (Broken n err) (Some err) s"
| "walk walkFn path (Dir n es) s =
     (case walkFn path (Dir n es) None s of
        (Ok, s') \<Rightarrow> walkNames walkFn path es s'
      | (err1, s') \<Rightarrow> (err1, s'))"
| "walkNames walkFn path [] s = (Ok, s)"
| "walkNames walkFn path (Broken n err # es) s =
     (case walkFn (filepath_Join path n) (Broken n err) (Some err) s of
        (Error x, s') \<Rightarrow> (Error x, s')
      | (_, s') \<Rightarrow> walkNames walkFn path es s')"
| "walkNames walkFn path (File n # es) s =
     (case walk walkFn (filepath_Join path n) (File n) s of
        (Ok, s') \<Rightarrow> walkNames walkFn path es s'
      | (err, s') \<Rightarrow> (err, s'))"
| "walkNames walkFn path (Dir n ds # es) s =
     (case walk walkFn (filepath_Join path n) (Dir n ds) s of
        (Error x, s') \<Rightarrow> (Error x, s')
      | (_, s') \<Rightarrow> walkNames walkFn path es s')"

definition Walk :: "'s WalkFunc \<Rightarrow> string \<Rightarrow> Entry \<Rightarrow> 's \<Rightarrow> walkret \<times> 's" where
  "Walk walkFn rootdir e s =
     (case walk walkFn rootdir e s of (SkipDir, s') \<Rightarrow> (Ok, s') | (err, s') \<Rightarrow> (err, s'))"

subsection \<open>Repo.walk, Repo.loadInfo, Repo.loadSubrepo, NewRepo\<close>

text \<open>
  The goroutines that \<open>walk\<close> starts are recorded in the order they are started,
  next to the lines written to the log (without the time stamp of the logger).
  A sub-repository task carries the directory entry found at its path.
\<close>

datatype task = LoadInfoTask string | LoadSubrepoTask string Entry

record spawned =
  tasks :: "task list"
  logs :: "string list"

definition isSubrepo :: "string \<Rightarrow> string \<Rightarrow> bool" where
  "isSubrepo r_root path = (if r_root = path then False else True)"

definition Repo_walk :: "string \<Rightarrow> spawned WalkFunc" where
  "Repo_walk r_root path info err s =
     (case err of
        Some e \<Rightarrow> (Error e, s\<lparr>logs := logs s @ [''walk error:  '' @ e]\<rparr>)
      | None \<Rightarrow>
          if HasPrefix (Base path) ''.'' then (SkipDir, s)
          else if IsDir info \<and> isSubrepo r_root path
               then (SkipDir, s\<lparr>tasks := tasks s @ [LoadSubrepoTask path info]\<rparr>)
          else if HasSuffix path ''.yaml''
               then (Ok, s\<lparr>tasks := tasks s @ [LoadInfoTask path]\<rparr>)
          else (Ok, s))"

text \<open>
  \<open>getPath\<close> and \<open>LoadInfo\<close> are called in repo.go and defined elsewhere in the
  repository; they are parameters here. \<open>LoadInfo\<close> returns a value and an error, as in
  \<open>info, err := LoadInfo(path)\<close>; \<open>None\<close> is the nil error.
\<close>

record env =
  getPath :: "string \<Rightarrow> string"
  LoadInfo :: "string \<Rightarrow> Info \<times> string option"

text \<open>
  \<open>loadInfo\<close> logs an error of \<open>LoadInfo\<close> and goes on to the assignment that
  follows. \<open>loadSubrepo\<close> gets the result of \<open>NewRepo(path)\<close>, a repository and the
  lines logged while building it.
\<close>

definition loadInfo :: "env \<Rightarrow> Repo \<times> string list \<Rightarrow> string \<Rightarrow> Repo \<times> string list" where
  "loadInfo ev rl path =
     (case rl of (r, lg) \<Rightarrow>
      case LoadInfo ev path of (info, err) \<Rightarrow>
        let lg' = (case err of Some e \<Rightarrow> lg @ [''Failed to load info:  '' @ e] | None \<Rightarrow> lg)
        in if HasPrefix (asKey path) ''_''
           then (Repo (Key r) (Repo.Info r) (fmupd (ID info) info (Control r)) (Subrepos r) (root r), lg')
           else (Repo (Key r) (fmupd (ID info) info (Repo.Info r)) (Control r) (Subrepos r) (root r), lg'))"

definition loadSubrepo :: "Repo \<times> string list \<Rightarrow> Repo \<times> string list \<Rightarrow> Repo \<times> string list" where
  "loadSubrepo rl built =
     (case rl of (r, lg) \<Rightarrow>
      case built of (nr, lg') \<Rightarrow>
        (Repo (Key r) (Repo.Info r) (Control r) (fmupd (Key nr) nr (Subrepos r)) (root r), lg @ lg'))"

definition spawned0 :: spawned where
  "spawned0 = \<lparr>tasks = [], logs = []\<rparr>"

text \<open>
  Every sub-repository task that a walk starts carries an entry strictly below the
  root of the walk, so \<open>NewRepo\<close> terminates on every (finite) tree.
\<close>

definition subentries :: "spawned \<Rightarrow> Entry set" where
  "subentries s = {e. \<exists>p. LoadSubrepoTask p e \<in> set (tasks s)}"

lemma Repo_walk_sub:
  "Repo_walk rt path info err s = (r, s') \<Longrightarrow> subentries s' \<subseteq> insert info (subentries s)"
  by (auto simp: Repo_walk_def subentries_def split: if_splits option.splits)

lemma walk_spawns_smaller:
  "walk (Repo_walk rt) path e s = (r, s') \<Longrightarrow>
     subentries s' \<subseteq> subentries s \<union> {e'. size e' \<le> size e}"
  "walkNames (Repo_walk rt) path es s = (r, s') \<Longrightarrow>
     subentries s' \<subseteq> subentries s \<union> {e'. size e' \<le> size_list size es}"
proof (induction "Repo_walk rt" path e s and "Repo_walk rt" path es s arbitrary: r s' and r s'
       rule: walk_walkNames.induct)
  case (1 path n s)
  then show ?case
    by (auto dest!: Repo_walk_sub)
next
  case (2 path n err s)
  then show ?case
    by (auto dest!: Repo_walk_sub)
next
  case (3 path n es s)
  obtain r0 s0 where f: "Repo_walk rt path (Dir n es) None s = (r0, s0)"
    by (cases "Repo_walk rt path (Dir n es) None s")
  from Repo_walk_sub [OF f] have s0: "subentries s0 \<subseteq> insert (Dir n es) (subentries s)" .
  show ?case
  proof (cases "r0 = Ok")
    case True
    with "3.prems" f have "walkNames (Repo_walk rt) path es s0 = (r, s')" by simp
    with "3.hyps" [of r0 s0 r s'] f True
    have "subentries s' \<subseteq> subentries s0 \<union> {e'. size e' \<le> size_list size es}" by simp
    with s0 show ?thesis by (fastforce simp: subset_iff)
  next
    case False
    with "3.prems" f have "s' = s0" by (cases r0) auto
    with s0 show ?thesis by (fastforce simp: subset_iff)
  qed
next
  case (4 path s)
  then show ?case by simp
next
  case (5 path n err es s)
  obtain r0 s0 where f: "Repo_walk rt (filepath_Join path n) (Broken n err) (Some err) s = (r0, s0)"
    by (cases "Repo_walk rt (filepath_Join path n) (Broken n err) (Some err) s")
  from Repo_walk_sub [OF f] have s0: "subentries s0 \<subseteq> insert (Broken n err) (subentries s)" .
  show ?case
  proof (cases "\<exists>x. r0 = Error x")
    case True
    with "5.prems" f have "s' = s0" by auto
    with s0 show ?thesis by (fastforce simp: subset_iff)
  next
    case False
    with "5.prems" f have w: "walkNames (Repo_walk rt) path es s0 = (r, s')" by (cases r0) auto
    have "subentries s' \<subseteq> subentries s0 \<union> {e'. size e' \<le> size_list size es}"
    proof (cases r0)
      case Ok
      with "5.hyps"(1) [of r0 s0 r s'] f w show ?thesis by simp
    next
      case SkipDir
      with "5.hyps"(2) [of r0 s0 r s'] f w show ?thesis by simp
    next
      case (Error x)
      with False show ?thesis by simp
    qed
    with s0 show ?thesis by (fastforce simp: subset_iff)
  qed
next
  case (6 path n es s)
  obtain r0 s0 where f: "walk (Repo_walk rt) (filepath_Join path n) (File n) s = (r0, s0)"
    by (cases "walk (Repo_walk rt) (filepath_Join path n) (File n) s")
  from "6.hyps"(1) [OF f] have s0: "subentries s0 \<subseteq> subentries s \<union> {e'. size e' \<le> size (File n)}" .
  show ?case
  proof (cases "r0 = Ok")
    case True
    with "6.prems" f have "walkNames (Repo_walk rt) path es s0 = (r, s')" by simp
    with "6.hyps"(2) [of r0 s0 r s'] f True
    have "subentries s' \<subseteq> subentries s0 \<union> {e'. size e' \<le> size_list size es}" by simp
    with s0 show ?thesis by (fastforce simp: subset_iff)
  next
    case False
    with "6.prems" f have "s' = s0" by (cases r0) auto
    with s0 show ?thesis by (fastforce simp: subset_iff)
  qed
next
  case (7 path n ds es s)
  obtain r0 s0 where f: "walk (Repo_walk rt) (filepath_Join path n) (Dir n ds) s = (r0, s0)"
    by (cases "walk (Repo_walk rt) (filepath_Join path n) (Dir n ds) s")
  from "7.hyps"(1) [OF f] have s0: "subentries s0 \<subseteq> subentries s \<union> {e'. size e' \<le> size (Dir n ds)}" .
  show ?case
  proof (cases "\<exists>x. r0 = Error x")
    case True
    with "7.prems" f have "s' = s0" by auto
    with s0 show ?thesis by (fastforce simp: subset_iff)
  next
    case False
    with "7.prems" f have w: "walkNames (Repo_walk rt) path es s0 = (r, s')" by (cases r0) auto
    have "subentries s' \<subseteq> subentries s0 \<union> {e'. size e' \<le> size_list size es}"
    proof (cases r0)
      case Ok
      with "7.hyps"(2) [of r0 s0 r s'] f w show ?thesis by simp
    next
      case SkipDir
      with "7.hyps"(3) [of r0 s0 r s'] f w show ?thesis by simp
    next
      case (Error x)
      with False show ?thesis by simp
    qed
    with s0 show ?thesis by (fastforce simp: subset_iff)
  qed
qed

lemma Walk_spawns_smaller:
  assumes "LoadSubrepoTask path e' \<in> set (tasks (snd (Walk (Repo_walk rt) rt e spawned0)))"
  shows "size e' < size e"
proof -
  obtain r s where w: "walk (Repo_walk rt) rt e spawned0 = (r, s)"
    by (cases "walk (Repo_walk rt) rt e spawned0")
  then have "snd (Walk (Repo_walk rt) rt e spawned0) = s"
    by (cases r) (simp_all add: Walk_def)
  with assms have mem: "e' \<in> subentries s"
    by (auto simp: subentries_def)
  have empty: "subentries spawned0 = {}"
    by (simp add: subentries_def spawned0_def)
  show ?thesis
  proof (cases e)
    case (File n)
    with w mem show ?thesis
      by (auto simp: Repo_walk_def subentries_def spawned0_def split: if_splits)
  next
    case (Broken n err)
    with w mem show ?thesis
      by (auto simp: Repo_walk_def subentries_def spawned0_def split: if_splits)
  next
    case (Dir n es)
    obtain r0 s0 where f: "Repo_walk rt rt (Dir n es) None spawned0 = (r0, s0)"
      by (cases "Repo_walk rt rt (Dir n es) None spawned0")
    then have s0: "subentries s0 = {}"
      by (auto simp: Repo_walk_def isSubrepo_def subentries_def spawned0_def split: if_splits)
    show ?thesis
    proof (cases "r0 = Ok")
      case True
      with w f Dir have "walkNames (Repo_walk rt) rt es s0 = (r, s)" by simp
      from walk_spawns_smaller(2) [OF this] s0 mem
      have "size e' \<le> size_list size es" by auto
      with Dir show ?thesis by simp
    next
      case False
      with w f Dir have "s = s0" by (cases r0) auto
      with s0 mem show ?thesis by simp
    qed
  qed
qed

text \<open>
  A task that has done its work and is about to write into the maps of the node:
  \<open>loadInfo(path)\<close>, or \<open>loadSubrepo\<close> with the repository that \<open>NewRepo\<close> built.
\<close>

datatype finished = InfoLoaded string | SubrepoBuilt "Repo \<times> string list"

definition finish :: "env \<Rightarrow> Repo \<times> string list \<Rightarrow> finished \<Rightarrow> Repo \<times> string list" where
  "finish ev rl d =
     (case d of
        InfoLoaded path \<Rightarrow> loadInfo ev rl path
      | SubrepoBuilt built \<Rightarrow> loadSubrepo rl built)"

text \<open>
  \<open>NewRepo\<close>: the walk from the root, then \<open>r.wg.Wait()\<close>. The result of
  \<open>filepath.Walk\<close> is dropped. The tasks finish in the order they were started (with
  distinct keys the order does not matter); each writes its own entry into the maps of
  the node. The second component is the log.
\<close>

function NewRepo :: "env \<Rightarrow> string \<Rightarrow> Entry \<Rightarrow> Repo \<times> string list" where
  "NewRepo ev p e =
     (let r = Repo (asKey p) fmempty fmempty fmempty (getPath ev p);
          s = snd (Walk (Repo_walk (root r)) (root r) e spawned0);
          built = map (\<lambda>t. case t of
                              LoadInfoTask path \<Rightarrow> InfoLoaded path
                            | LoadSubrepoTask path e' \<Rightarrow> SubrepoBuilt (NewRepo ev path e'))
                      (tasks s)
      in foldl (finish ev) (r, logs s) built)"
  by pat_completeness auto
termination
proof (relation "measure (\<lambda>(ev, p, e). size e)")
  show "wf (measure (\<lambda>(ev, p, e). size e))" by simp
next
  fix ev :: env and p e r s t path e'
  assume "r = Repo (asKey p) fmempty fmempty fmempty (getPath ev p)"
    and "s = snd (Walk (Repo_walk (root r)) (root r) e spawned0)"
    and "t \<in> set (tasks s)" and "t = LoadSubrepoTask path e'"
  then have "size e' < size e"
    using Walk_spawns_smaller [of path e' "root r" e] by simp
  then show "((ev, path, e'), (ev, p, e)) \<in> measure (\<lambda>(ev, p, e). size e)" by simp
qed

declare NewRepo.simps [simp del]

subsection \<open>A sample inventory directory\<close>

text \<open>
  A loader that fails on \<open>bad.yaml\<close> and otherwise returns a document named after its
  path, and a directory tree with a hidden directory, a control document, a document
  that fails to load, a sub-repository and a file that is no document.
\<close>

definition ev0 :: env where
  "ev0 = \<lparr>getPath = (\<lambda>p. p),
          LoadInfo = (\<lambda>p. if HasSuffix p ''bad.yaml''
                          then (Info.Info [], Some ''yaml: line 1: did not find expected key'')
                          else (Info.Info (asKey p), None))\<rparr>"

definition tree0 :: Entry where
  "tree0 =
     Dir ''inv''
       [Dir ''.git'' [File ''config.yaml''],
        File ''_repo.yaml'',
        File ''bad.yaml'',
        Dir ''cluster6'' [File ''_repo.yaml'', File ''db.yaml''],
        File ''db.yaml'',
        File ''notes.txt'']"

text \<open>A repository node with two documents, a control document and one sub-repository.\<close>

definition sample_repo :: Repo where
  "sample_repo =
     Repo ''inv''
       (fmap_of_list [(''db'', Info.Info ''db''), (''cache'', Info.Info ''cache'')])
       (fmap_of_list [(''_repo'', Info.Info ''_repo'')])
       (fmap_of_list
          [(''cluster6'',
            Repo ''cluster6'' (fmap_of_list [(''web'', Info.Info ''web'')])
              (fmap_of_list [(''_repo'', Info.Info ''_repo'')]) fmempty ''/srv/inv/cluster6'')])
       ''/srv/inv''"

section \<open>Default host selection\<close>

lemma find_first_index:
  assumes "i < length xs" and "P (xs ! i)" and "\<forall>j<i. \<not> P (xs ! j)"
  shows "find P xs = Some (xs ! i)"
  using assms
proof (induction xs arbitrary: i)
  case Nil
  then show ?case by simp
next
  case (Cons x xs)
  show ?case
  proof (cases i)
    case 0
    with Cons.prems show ?thesis by simp
  next
    case (Suc k)
    with Cons.prems have "\<not> P x" by auto
    moreover have "find P xs = Some (xs ! k)"
    proof (rule Cons.IH)
      show "k < length xs" using Cons.prems Suc by simp
      show "P (xs ! k)" using Cons.prems Suc by simp
      show "\<forall>j<k. \<not> P (xs ! j)"
      proof (intro allI impI)
        fix j assume "j < k"
        then have "Suc j < i" using Suc by simp
        with Cons.prems have "\<not> P ((x # xs) ! Suc j)" by blast
        then show "\<not> P (xs ! j)" by simp
      qed
    qed
    ultimately show ?thesis using Suc by simp
  qed
qed

lemma find_none_iff: "find P xs = None \<longleftrightarrow> (\<forall>x\<in>set xs. \<not> P x)"
  by (induction xs) auto

text \<open>
  Claim C1. A category with a primary-flagged host: the default selection is the first
  host in declaration order whose flag is set. A category with hosts of which none is
  flagged: the default selection is the host at index 0. The one-token call of
  \<open>HostInfo.Execute\<close> runs the terminal action on exactly that host.
\<close>

theorem C1_primary_or_first:
  "(\<forall>i<length (Hosts c).
       Host.Primary (Hosts c ! i) \<and> (\<forall>j<i. \<not> Host.Primary (Hosts c ! j))
       \<longrightarrow> PrimaryHost c = Inr (Hosts c ! i)
           \<and> (fmlookup (Types h) t = Some c
                \<longrightarrow> HostInfo_Execute h [t] = HostExecute (Hosts c ! i) [[]]))
   \<and> (Hosts c \<noteq> [] \<and> (\<forall>x\<in>set (Hosts c). \<not> Host.Primary x)
       \<longrightarrow> PrimaryHost c = Inr (Hosts c ! 0)
           \<and> (fmlookup (Types h) t = Some c
                \<longrightarrow> HostInfo_Execute h [t] = HostExecute (Hosts c ! 0) [[]]))"
proof (intro conjI allI impI)
  fix i
  assume i: "i < length (Hosts c)"
    and p: "Host.Primary (Hosts c ! i) \<and> (\<forall>j<i. \<not> Host.Primary (Hosts c ! j))"
  then have "find Host.Primary (Hosts c) = Some (Hosts c ! i)"
    by (simp add: find_first_index)
  then show sel: "PrimaryHost c = Inr (Hosts c ! i)"
    by (simp add: PrimaryHost_def)
  assume "fmlookup (Types h) t = Some c"
  with sel show "HostInfo_Execute h [t] = HostExecute (Hosts c ! i) [[]]"
    by (simp add: HostInfo_Execute_def)
next
  assume np: "Hosts c \<noteq> [] \<and> (\<forall>x\<in>set (Hosts c). \<not> Host.Primary x)"
  then have "find Host.Primary (Hosts c) = None"
    by (simp add: find_none_iff)
  with np show sel: "PrimaryHost c = Inr (Hosts c ! 0)"
    by (cases "Hosts c") (simp_all add: PrimaryHost_def)
  assume "fmlookup (Types h) t = Some c"
  with sel show "HostInfo_Execute h [t] = HostExecute (Hosts c ! 0) [[]]"
    by (simp add: HostInfo_Execute_def)
qed

text \<open>Claim C1 at the sample document: category \<open>ro\<close> has its flagged host at index 3,
  category \<open>task\<close> has no flagged host.\<close>

theorem C1_primary_or_first_witness:
  "PrimaryHost sample_ro = Inr (Host ''db4.cluster3.company.net'' ''Designated for long queries'' ''longquery'' True)
   \<and> HostInfo_Execute sample [''ro'']
       = HostExecute (Host ''db4.cluster3.company.net'' ''Designated for long queries'' ''longquery'' True) [[]]
   \<and> PrimaryHost sample_task = Inr (Host ''taskdb1.cluster6.company.net'' [] [] False)
   \<and> HostInfo_Execute sample [''task'']
       = HostExecute (Host ''taskdb1.cluster6.company.net'' [] [] False) [[]]"
proof -
  have ro: "(3::nat) < length (Hosts sample_ro)"
    "Host.Primary (Hosts sample_ro ! 3) \<and> (\<forall>j<3. \<not> Host.Primary (Hosts sample_ro ! j))"
    "fmlookup (Types sample) ''ro'' = Some sample_ro"
    "Hosts sample_ro ! 3 = Host ''db4.cluster3.company.net'' ''Designated for long queries'' ''longquery'' True"
    by (simp_all add: sample_ro_def sample_def less_Suc_eq numeral_3_eq_3)
  have task: "Hosts sample_task \<noteq> [] \<and> (\<forall>x\<in>set (Hosts sample_task). \<not> Host.Primary x)"
    "fmlookup (Types sample) ''task'' = Some sample_task"
    "Hosts sample_task ! 0 = Host ''taskdb1.cluster6.company.net'' [] [] False"
    by (simp_all add: sample_task_def sample_def)
  from C1_primary_or_first [of sample_ro sample "''ro''"] ro
  have 1: "PrimaryHost sample_ro = Inr (Hosts sample_ro ! 3)"
    "HostInfo_Execute sample [''ro''] = HostExecute (Hosts sample_ro ! 3) [[]]"
    by blast+
  from C1_primary_or_first [of sample_task sample "''task''"] task
  have 2: "PrimaryHost sample_task = Inr (Hosts sample_task ! 0)"
    "HostInfo_Execute sample [''task''] = HostExecute (Hosts sample_task ! 0) [[]]"
    by blast+
  show ?thesis using 1 2 ro(4) task(3) by simp
qed

text \<open>
  Claim C10. Default selection returns a host exactly when the host list is non-empty:
  on an empty list no host can be flagged, the loop falls through and \<open>&c.Hosts[0]\<close>
  panics; on a non-empty list either a flagged host or the host at index 0 is returned.
\<close>

theorem C10_total_iff_nonempty:
  "(PrimaryHost c = Inl IndexOutOfRange \<longleftrightarrow> Hosts c = [])
   \<and> ((\<exists>host. PrimaryHost c = Inr host) \<longleftrightarrow> Hosts c \<noteq> [])"
proof -
  have a: "Hosts c = [] \<Longrightarrow> PrimaryHost c = Inl IndexOutOfRange"
    by (simp add: PrimaryHost_def)
  have b: "Hosts c \<noteq> [] \<Longrightarrow> \<exists>host. PrimaryHost c = Inr host"
    by (cases "Hosts c") (auto simp: PrimaryHost_def split: option.splits)
  show ?thesis using a b by (cases "Hosts c = []") auto
qed

text \<open>Claim C10 at an empty category and at category \<open>wal\<close> of the sample document.\<close>

theorem C10_total_iff_nonempty_witness:
  "PrimaryHost (Category ''spare'' False []) = Inl IndexOutOfRange
   \<and> (\<exists>host. PrimaryHost sample_wal = Inr host)"
  using C10_total_iff_nonempty [of "Category ''spare'' False []"]
    C10_total_iff_nonempty [of sample_wal]
  by (simp add: sample_wal_def)

section \<open>Category and index tokens\<close>

lemma List_sorted: "sorted (List h) \<and> distinct (List h)"
  by (simp add: List_def sorted_list_of_fset.rep_eq)

lemma List_keys: "set (List h) = {k. \<exists>cat. fmlookup h k = Some cat}"
  by (auto simp: List_def fmlookup_dom_iff)

lemmas Atoi_eval = Atoi_def isDigit_def decimal_def digitVal_def less_eq_char_def

lemma sample_List: "List (Types sample) = [''master'', ''ro'', ''standby'', ''task'', ''wal'']"
  by (simp add: sample_def List_def sorted_list_of_fset.rep_eq less_eq_char_def)

text \<open>
  Claim C2. With an existing category as first token: an index token that
  \<open>strconv.Atoi\<close> parses to a value within \<open>[0, len(hosts))\<close> selects the host at
  that index; a token that does not parse ends in \<open>log.Fatal\<close>, a parsed index outside
  the range ends in the runtime's index panic. Both terminate the process with a
  diagnostic and without a host action.
\<close>

theorem C2_index_selection:
  assumes "fmlookup (Types h) t = Some cat"
  shows "(\<forall>x. Atoi tok = Some x \<and> 0 \<le> x \<and> x < int (length (Hosts cat))
            \<longrightarrow> HostInfo_Execute h [t, tok] = HostExecute (Hosts cat ! nat x) [[]])
       \<and> (Atoi tok = None
            \<longrightarrow> HostInfo_Execute h [t, tok] = LogFatal (''Non-integer argument:'' @ tok))
       \<and> (\<forall>x. Atoi tok = Some x \<and> (x < 0 \<or> int (length (Hosts cat)) \<le> x)
            \<longrightarrow> HostInfo_Execute h [t, tok] = Panicked IndexOutOfRange)"
  using assms by (auto simp: HostInfo_Execute_def)

text \<open>Claim C2 at the sample document: \<open>standby 1\<close>, \<open>task x\<close>, \<open>task 5\<close>, \<open>task -1\<close>.\<close>

theorem C2_index_selection_witness:
  "HostInfo_Execute sample [''standby'', ''1'']
     = HostExecute (Host ''db1.cluster3.company.net'' ''Hot standby, disaster recovery only'' ''disaster'' False) [[]]
   \<and> HostInfo_Execute sample [''task'', ''x''] = LogFatal ''Non-integer argument:x''
   \<and> HostInfo_Execute sample [''task'', ''5''] = Panicked IndexOutOfRange
   \<and> HostInfo_Execute sample [''task'', ''-1''] = Panicked IndexOutOfRange"
proof -
  have s: "fmlookup (Types sample) ''standby'' = Some sample_standby"
    and t: "fmlookup (Types sample) ''task'' = Some sample_task"
    by (simp_all add: sample_def)
  have a: "Atoi ''1'' = Some 1" "Atoi ''x'' = None" "Atoi ''5'' = Some 5" "Atoi ''-1'' = Some (- 1)"
    by (simp_all add: Atoi_eval)
  have l: "length (Hosts sample_standby) = 2" "length (Hosts sample_task) = 2"
    "Hosts sample_standby ! nat 1
       = Host ''db1.cluster3.company.net'' ''Hot standby, disaster recovery only'' ''disaster'' False"
    by (simp_all add: sample_standby_def sample_task_def)
  show ?thesis
    using C2_index_selection [OF s, of "''1''"] C2_index_selection [OF t, of "''x''"]
      C2_index_selection [OF t, of "''5''"] C2_index_selection [OF t, of "''-1''"] a l
    by simp
qed

text \<open>
  Claim C7, as stated, fails: \<open>slave\<close> names no category of the sample document, and
  with the three tokens \<open>slave 0 now\<close> the switch on the number of tokens has no
  matching case. Nothing is reported and the process does not exit; the call returns.
\<close>

theorem C7_three_tokens_counterexample:
  "fmlookup (Types sample) ''slave'' = None
   \<and> HostInfo_Execute sample [''slave'', ''0'', ''now''] = Returned
   \<and> HostInfo_Execute sample [''slave'', ''0'', ''now'']
       \<noteq> Exited [''No such type: slave'', ''Choices are: master, ro, standby, task, wal''] 1"
  by (simp add: HostInfo_Execute_def sample_def)

text \<open>
  Claim C7, amended. In a call with one or two tokens, a first token that names no
  category: the invalid choice and the sorted category names are printed, the process
  exits with status 1, and no host action takes place.
\<close>

theorem C7_unknown_category:
  assumes "fmlookup (Types h) t = None" and "args = [t] \<or> args = [t, tok]"
  shows "HostInfo_Execute h args
           = Exited [''No such type: '' @ t, ''Choices are: '' @ strings_Join (List (Types h)) '', ''] 1
       \<and> sorted (List (Types h)) \<and> distinct (List (Types h))
       \<and> set (List (Types h)) = {k. \<exists>cat. fmlookup (Types h) k = Some cat}
       \<and> (\<forall>host extra. HostInfo_Execute h args \<noteq> HostExecute host extra)"
proof -
  have "HostInfo_Execute h args
           = Exited [''No such type: '' @ t, ''Choices are: '' @ strings_Join (List (Types h)) '', ''] 1"
    using assms by (auto simp: HostInfo_Execute_def)
  then show ?thesis
    using List_sorted [of "Types h"] List_keys [of "Types h"] by simp
qed

text \<open>Claim C7, amended, at the sample document, for one and for two tokens.\<close>

theorem C7_unknown_category_witness:
  "HostInfo_Execute sample [''slave'']
     = Exited [''No such type: slave'', ''Choices are: master, ro, standby, task, wal''] 1
   \<and> HostInfo_Execute sample [''slave'', ''0'']
     = Exited [''No such type: slave'', ''Choices are: master, ro, standby, task, wal''] 1"
proof -
  have n: "fmlookup (Types sample) ''slave'' = None"
    by (simp add: sample_def)
  show ?thesis
    using C7_unknown_category [OF n, of "[''slave'']" "''0''"]
      C7_unknown_category [OF n, of "[''slave'', ''0'']" "''0''"]
    by (simp add: sample_List)
qed

text \<open>
  Claim C8, as stated, fails: with three tokens the call does not behave as with the
  first two. \<open>standby 1\<close> opens a session on the host at index 1; \<open>standby 1 now\<close>
  does nothing.
\<close>

theorem C8_extra_tokens_counterexample:
  "HostInfo_Execute sample [''standby'', ''1'', ''now'']
     \<noteq> HostInfo_Execute sample (take 2 [''standby'', ''1'', ''now''])"
  by (simp add: HostInfo_Execute_def sample_def sample_standby_def Atoi_eval)

text \<open>
  Claim C8, amended. The switch on the number of tokens has no branch for more than
  two: with more than two tokens nothing is printed, no process exit and no host
  action take place, whatever the tokens are.
\<close>

theorem C8_more_than_two_tokens:
  "2 < length args \<Longrightarrow> HostInfo_Execute h args = Returned"
  by (auto simp: HostInfo_Execute_def Let_def)

text \<open>Claim C8, amended, at the sample document.\<close>

theorem C8_more_than_two_tokens_witness:
  "2 < length [''standby'', ''1'', ''now'']
   \<and> HostInfo_Execute sample [''standby'', ''1'', ''now''] = Returned"
  using C8_more_than_two_tokens [of "[''standby'', ''1'', ''now'']" sample] by simp

section \<open>Lookup by FQDN\<close>

text \<open>
  Claim C9, as stated, fails: when no host matches, \<open>GetHost\<close> returns the nil pointer,
  not a pointer to an unpopulated host, and the check \<open>hasHost\<close> does not answer false
  on that result.
\<close>

theorem C9_no_match_counterexample:
  "GetHost sample_wal ''db9.cluster3.company.net'' \<noteq> Some (Host [] [] [] False)
   \<and> hasHost (GetHost sample_wal ''db9.cluster3.company.net'') \<noteq> Inr False"
  by (simp add: GetHost_def hasHost_def sample_wal_def)

text \<open>
  Claim C9, amended. \<open>GetHost\<close> returns the first host in declaration order whose
  FQDN equals the string, and \<open>hasHost\<close> on it tells whether that FQDN is non-empty.
  When no host matches, \<open>GetHost\<close> returns the nil pointer, which is an explicit
  absence signal and not an unpopulated host.
\<close>

theorem C9_GetHost:
  "(\<forall>i<length (Hosts c).
       FQDN (Hosts c ! i) = fqdn \<and> (\<forall>j<i. FQDN (Hosts c ! j) \<noteq> fqdn)
       \<longrightarrow> GetHost c fqdn = Some (Hosts c ! i)
           \<and> hasHost (GetHost c fqdn) = Inr (fqdn \<noteq> []))
   \<and> ((\<forall>x\<in>set (Hosts c). FQDN x \<noteq> fqdn) \<longrightarrow> GetHost c fqdn = None)"
proof (intro conjI allI impI)
  fix i
  assume "i < length (Hosts c)"
    and "FQDN (Hosts c ! i) = fqdn \<and> (\<forall>j<i. FQDN (Hosts c ! j) \<noteq> fqdn)"
  then have f: "find (\<lambda>host. FQDN host = fqdn) (Hosts c) = Some (Hosts c ! i)"
    by (intro find_first_index) simp_all
  then show g: "GetHost c fqdn = Some (Hosts c ! i)"
    by (simp add: GetHost_def)
  from f find_Some_iff [of "\<lambda>host. FQDN host = fqdn" "Hosts c" "Hosts c ! i"]
  have "FQDN (Hosts c ! i) = fqdn" by auto
  with g show "hasHost (GetHost c fqdn) = Inr (fqdn \<noteq> [])"
    by (simp add: hasHost_def)
next
  assume "\<forall>x\<in>set (Hosts c). FQDN x \<noteq> fqdn"
  then have "find (\<lambda>host. FQDN host = fqdn) (Hosts c) = None"
    by (simp add: find_none_iff)
  then show "GetHost c fqdn = None"
    by (simp add: GetHost_def)
qed

text \<open>Claim C9, amended, at category \<open>standby\<close> of the sample document.\<close>

theorem C9_GetHost_witness:
  "GetHost sample_standby ''db1.cluster3.company.net''
     = Some (Host ''db1.cluster3.company.net'' ''Hot standby, disaster recovery only'' ''disaster'' False)
   \<and> hasHost (GetHost sample_standby ''db1.cluster3.company.net'') = Inr True
   \<and> GetHost sample_standby ''db9.cluster3.company.net'' = None"
proof -
  have a: "(1::nat) < length (Hosts sample_standby)"
    "FQDN (Hosts sample_standby ! 1) = ''db1.cluster3.company.net''
       \<and> (\<forall>j<1. FQDN (Hosts sample_standby ! j) \<noteq> ''db1.cluster3.company.net'')"
    "Hosts sample_standby ! 1
       = Host ''db1.cluster3.company.net'' ''Hot standby, disaster recovery only'' ''disaster'' False"
    by (simp_all add: sample_standby_def)
  have b: "\<forall>x\<in>set (Hosts sample_standby). FQDN x \<noteq> ''db9.cluster3.company.net''"
    by (simp add: sample_standby_def)
  from C9_GetHost [of sample_standby "''db1.cluster3.company.net''"] a(1,2)
  have 1: "GetHost sample_standby ''db1.cluster3.company.net'' = Some (Hosts sample_standby ! 1)"
    "hasHost (GetHost sample_standby ''db1.cluster3.company.net'')
       = Inr (''db1.cluster3.company.net'' \<noteq> [])"
    by blast+
  from C9_GetHost [of sample_standby "''db9.cluster3.company.net''"] b
  have 2: "GetHost sample_standby ''db9.cluster3.company.net'' = None"
    by blast
  show ?thesis using 1 2 a(3) by simp
qed

section \<open>Resolving tokens against a repository\<close>

lemmas path_eval = HasPrefix_def HasSuffix_def Base_def filepath_Join_def asKey_def
lemmas walk_eval = Walk_def Repo_walk_def isSubrepo_def spawned0_def
lemmas listing_eval = Subrepos_index_def listing_def Repo_zero_def SubrepoKeys_def Keys_def
  sorted_list_of_fmap_def sorted_list_of_fset.rep_eq less_eq_char_def

text \<open>
  The steps of the loop of \<open>Repo.Execute\<close>: a token that is a document key ends the
  descent with \<open>info.Execute()\<close> (documents are looked up before sub-repositories);
  otherwise a token that is a sub-repository key moves the cursor to that child; at the
  end of the tokens the sorted keys of the cursor are printed. A token that matches
  neither leaves the zero value in \<open>repo\<close>, and the keys printed are those of the
  zero value: none.
\<close>

lemma descend_document:
  "fmlookup (Repo.Info repo) arg = Some info \<Longrightarrow> descend repo (arg # args) = InfoExecute info"
  by simp

lemma descend_subrepo:
  "fmlookup (Repo.Info repo) arg = None \<Longrightarrow> fmlookup (Subrepos repo) arg = Some sub \<Longrightarrow>
     descend repo (arg # args) = descend sub args"
  by (simp add: Subrepos_index_def)

lemma descend_end: "descend repo [] = Listed (SubrepoKeys repo) (Keys repo)"
  by (simp add: listing_def)

lemma descend_no_match:
  "fmlookup (Repo.Info repo) arg = None \<Longrightarrow> fmlookup (Subrepos repo) arg = None \<Longrightarrow>
     descend repo (arg # args) = Listed [] []"
  by (simp add: listing_eval)

lemma Keys_sorted: "sorted (Keys repo) \<and> sorted (SubrepoKeys repo)"
  by (simp add: Keys_def SubrepoKeys_def)

text \<open>
  Claim C5 at the sample repository. With no further token the node lists its
  sub-repository \<open>cluster6\<close> and its documents \<open>cache\<close> and \<open>db\<close>. With the unknown
  token \<open>cluster7\<close> consumption stops at the same node, and the claim has the listing
  of that node printed; the code prints an empty listing.
\<close>

theorem C5_no_match_prints_nothing:
  "Repo_Execute sample_repo [''inv''] = Listed [''cluster6''] [''cache'', ''db'']
   \<and> Repo_Execute sample_repo [''inv'', ''cluster7''] = Listed [] []"
  by (simp add: Repo_Execute_def sample_repo_def listing_eval)

section \<open>Building a repository\<close>

text \<open>
  \<open>loadInfo\<close> files whatever \<open>LoadInfo\<close> returned, error or not, under the \<open>ID\<close> of
  the returned value.
\<close>

lemma loadInfo_files_entry:
  "LoadInfo ev path = (info, err) \<Longrightarrow>
     fmlookup (if HasPrefix (asKey path) ''_'' then Control (fst (loadInfo ev (r, lg) path))
               else Repo.Info (fst (loadInfo ev (r, lg) path))) (ID info) = Some info"
  by (simp add: loadInfo_def Let_def)

lemma Walk_failed_load:
  "Walk (Repo_walk ''/srv/inv'') ''/srv/inv'' (Dir ''inv'' [File ''bad.yaml'', File ''db.yaml''])
     spawned0
     = (Ok, \<lparr>tasks = [LoadInfoTask ''/srv/inv/bad.yaml'', LoadInfoTask ''/srv/inv/db.yaml''],
             logs = []\<rparr>)"
  by (simp add: walk_eval path_eval)

text \<open>
  Claim C3 at a directory with a document that fails to load and one that loads. The
  failure is logged and the sibling \<open>db\<close> is filed, but the document map also holds an
  entry written for the failed document: the value \<open>LoadInfo\<close> returned next to the
  error, under its (empty) \<open>ID\<close>. There is no return after the log call.
\<close>

theorem C3_failed_load_is_filed:
  "NewRepo ev0 ''/srv/inv'' (Dir ''inv'' [File ''bad.yaml'', File ''db.yaml''])
     = (Repo ''inv'' (fmupd ''db'' (Info.Info ''db'') (fmupd [] (Info.Info []) fmempty))
          fmempty fmempty ''/srv/inv'',
        [''Failed to load info:  yaml: line 1: did not find expected key''])"
  apply (subst NewRepo.simps)
  apply (simp add: ev0_def Walk_failed_load path_eval finish_def loadInfo_def)
  done

subsection \<open>An error during the walk\<close>

text \<open>
  \<open>walk\<close> logs the error it is called with and returns it, and \<open>filepath.Walk\<close> stops
  at an error other than \<open>SkipDir\<close>: the entries after the failing one have no effect
  on the walk, and the entries before it start the same tasks as without it.
\<close>

lemma Repo_walk_error:
  "Repo_walk rt path info (Some err) s = (Error err, s\<lparr>logs := logs s @ [''walk error:  '' @ err]\<rparr>)"
  by (simp add: Repo_walk_def)

lemma Repo_walk_root:
  "Repo_walk rt rt (Dir n es) None s = Repo_walk rt rt (Dir n es') None s"
  by (simp add: Repo_walk_def isSubrepo_def)

lemma walkNames_stops_at_error:
  "walkNames (Repo_walk rt) path (pre @ Broken b err # post) s
     = walkNames (Repo_walk rt) path (pre @ [Broken b err]) s"
proof (induction pre arbitrary: s)
  case Nil
  show ?case by (simp add: Repo_walk_error)
next
  case (Cons e pre)
  show ?case
  proof (cases e)
    case (File m)
    with Cons.IH show ?thesis by (simp split: prod.splits walkret.splits)
  next
    case (Dir m ds)
    with Cons.IH show ?thesis by (simp split: prod.splits walkret.splits)
  next
    case (Broken m x)
    with Cons.IH show ?thesis by (simp split: prod.splits walkret.splits)
  qed
qed

lemma walkNames_error_last:
  "walkNames (Repo_walk rt) path (pre @ [Broken b err]) s
     = (case walkNames (Repo_walk rt) path pre s of
          (Ok, s') \<Rightarrow> (Error err, s'\<lparr>logs := logs s' @ [''walk error:  '' @ err]\<rparr>)
        | (r, s') \<Rightarrow> (r, s'))"
proof (induction pre arbitrary: s)
  case Nil
  show ?case by (simp add: Repo_walk_error)
next
  case (Cons e pre)
  show ?case
  proof (cases e)
    case (File m)
    with Cons.IH show ?thesis by (simp split: prod.splits walkret.splits)
  next
    case (Dir m ds)
    with Cons.IH show ?thesis by (simp split: prod.splits walkret.splits)
  next
    case (Broken m x)
    with Cons.IH show ?thesis by (simp split: prod.splits walkret.splits)
  qed
qed

lemma walk_stops_at_error:
  "walk (Repo_walk rt) rt (Dir n (pre @ Broken b err # post)) s
     = walk (Repo_walk rt) rt (Dir n (pre @ [Broken b err])) s"
  using Repo_walk_root [of rt n "pre @ Broken b err # post" s "pre @ [Broken b err]"]
  by (simp add: walkNames_stops_at_error [of rt rt pre b err post] split: prod.splits walkret.splits)

lemma walk_error_last_tasks:
  "tasks (snd (walk (Repo_walk rt) rt (Dir n (pre @ [Broken b err])) s))
     = tasks (snd (walk (Repo_walk rt) rt (Dir n pre) s))"
  using Repo_walk_root [of rt n "pre @ [Broken b err]" s pre]
  by (simp add: walkNames_error_last split: prod.splits walkret.splits)

lemma walk_error_last_logs:
  assumes "fst (walk (Repo_walk rt) rt (Dir n pre) s) = Ok"
  shows "(''walk error:  '' @ err) \<in> set (logs (snd (walk (Repo_walk rt) rt (Dir n (pre @ [Broken b err])) s)))"
  using assms Repo_walk_root [of rt n "pre @ [Broken b err]" s pre]
  by (auto simp: walkNames_error_last split: prod.splits walkret.splits)

lemma snd_Walk: "snd (Walk walkFn rt e s) = snd (walk walkFn rt e s)"
  by (simp add: Walk_def split: prod.splits walkret.splits)

lemma finish_fst: "fst (finish ev (r, lg) d) = fst (finish ev (r, lg') d)"
  by (simp add: finish_def loadInfo_def loadSubrepo_def Let_def split: finished.splits prod.splits)

lemma foldl_finish_fst:
  "fst (foldl (finish ev) (r, lg) ds) = fst (foldl (finish ev) (r, lg') ds)"
proof (induction ds arbitrary: r lg lg')
  case Nil
  show ?case by simp
next
  case (Cons d ds)
  obtain r1 lg1 where a: "finish ev (r, lg) d = (r1, lg1)" by (cases "finish ev (r, lg) d")
  obtain r2 lg2 where b: "finish ev (r, lg') d = (r2, lg2)" by (cases "finish ev (r, lg') d")
  from finish_fst [of ev r lg d lg'] a b have "r1 = r2" by simp
  with a b Cons.IH [of r1 lg1 lg2] show ?case by simp
qed

lemma finish_logs: "set lg \<subseteq> set (snd (finish ev (r, lg) d))"
  by (auto simp: finish_def loadInfo_def loadSubrepo_def Let_def split: finished.splits prod.splits option.splits)

lemma foldl_finish_logs: "set lg \<subseteq> set (snd (foldl (finish ev) (r, lg) ds))"
proof (induction ds arbitrary: r lg)
  case Nil
  show ?case by simp
next
  case (Cons d ds)
  obtain r1 lg1 where a: "finish ev (r, lg) d = (r1, lg1)" by (cases "finish ev (r, lg) d")
  with finish_logs [of lg ev r d] have "set lg \<subseteq> set lg1" by simp
  with a Cons.IH [of lg1 r1] show ?case by auto
qed

lemma NewRepo_same_walk:
  assumes "snd (walk (Repo_walk (getPath ev p)) (getPath ev p) e1 spawned0)
             = snd (walk (Repo_walk (getPath ev p)) (getPath ev p) e2 spawned0)"
  shows "NewRepo ev p e1 = NewRepo ev p e2"
  using assms by (simp add: NewRepo.simps [of ev p e1] NewRepo.simps [of ev p e2] snd_Walk)

lemma NewRepo_same_tasks:
  assumes "tasks (snd (walk (Repo_walk (getPath ev p)) (getPath ev p) e1 spawned0))
             = tasks (snd (walk (Repo_walk (getPath ev p)) (getPath ev p) e2 spawned0))"
  shows "fst (NewRepo ev p e1) = fst (NewRepo ev p e2)"
  using assms
  by (simp add: NewRepo.simps [of ev p e1] NewRepo.simps [of ev p e2] snd_Walk Let_def)
     (rule foldl_finish_fst)

lemma NewRepo_logs:
  "set (logs (snd (walk (Repo_walk (getPath ev p)) (getPath ev p) e spawned0)))
     \<subseteq> set (snd (NewRepo ev p e))"
  by (simp add: NewRepo.simps [of ev p e] snd_Walk Let_def foldl_finish_logs)

lemma Walk_one_document:
  "Walk (Repo_walk ''/srv/inv'') ''/srv/inv'' (Dir ''inv'' [File ''db.yaml'']) spawned0
     = (Ok, \<lparr>tasks = [LoadInfoTask ''/srv/inv/db.yaml''], logs = []\<rparr>)"
  by (simp add: walk_eval path_eval)

lemma NewRepo_one_document:
  "NewRepo ev0 ''/srv/inv'' (Dir ''inv'' [File ''db.yaml''])
     = (Repo ''inv'' (fmupd ''db'' (Info.Info ''db'') fmempty) fmempty fmempty ''/srv/inv'', [])"
  apply (subst NewRepo.simps)
  apply (simp add: ev0_def Walk_one_document path_eval finish_def loadInfo_def)
  done

lemma Walk_error_first:
  "Walk (Repo_walk ''/srv/inv'') ''/srv/inv''
     (Dir ''inv'' [Broken ''cache.yaml'' ''lstat /srv/inv/cache.yaml: permission denied'',
                   File ''db.yaml'']) spawned0
     = (Error ''lstat /srv/inv/cache.yaml: permission denied'',
        \<lparr>tasks = [], logs = [''walk error:  lstat /srv/inv/cache.yaml: permission denied'']\<rparr>)"
  by (simp add: walk_eval path_eval)

lemma NewRepo_error_first:
  "NewRepo ev0 ''/srv/inv''
     (Dir ''inv'' [Broken ''cache.yaml'' ''lstat /srv/inv/cache.yaml: permission denied'',
                   File ''db.yaml''])
     = (Repo ''inv'' fmempty fmempty fmempty ''/srv/inv'',
        [''walk error:  lstat /srv/inv/cache.yaml: permission denied''])"
  apply (subst NewRepo.simps)
  apply (simp add: ev0_def Walk_error_first path_eval)
  done

text \<open>
  Claim C4, as stated, fails: with an \<open>lstat\<close> error at \<open>cache.yaml\<close> the document
  \<open>db.yaml\<close> next to it, which is not below the failing path, is not filed; without
  the failing entry it is.
\<close>

theorem C4_later_entries_counterexample:
  "fmlookup (Repo.Info (fst (NewRepo ev0 ''/srv/inv''
      (Dir ''inv'' [Broken ''cache.yaml'' ''lstat /srv/inv/cache.yaml: permission denied'',
                    File ''db.yaml''])))) ''db'' = None
   \<and> fmlookup (Repo.Info (fst (NewRepo ev0 ''/srv/inv'' (Dir ''inv'' [File ''db.yaml''])))) ''db''
       = Some (Info.Info ''db'')"
  by (simp add: NewRepo_error_first NewRepo_one_document)

text \<open>
  Claim C4, amended. An \<open>lstat\<close> error at one entry of the root directory ends the
  walk of that node: the entries after it are never visited (the build is the same as
  if they were not there), the entries before it fill the maps of the node exactly as
  without the failing entry, and \<open>NewRepo\<close> still returns the node. When the walk gets
  as far as the failing entry, the error is in the log.
\<close>

theorem C4_walk_ends_at_error:
  "NewRepo ev p (Dir n (pre @ Broken b err # post)) = NewRepo ev p (Dir n (pre @ [Broken b err]))
   \<and> fst (NewRepo ev p (Dir n (pre @ [Broken b err]))) = fst (NewRepo ev p (Dir n pre))
   \<and> (fst (walk (Repo_walk (getPath ev p)) (getPath ev p) (Dir n pre) spawned0) = Ok
        \<longrightarrow> (''walk error:  '' @ err) \<in> set (snd (NewRepo ev p (Dir n (pre @ Broken b err # post)))))"
proof (intro conjI impI)
  show a: "NewRepo ev p (Dir n (pre @ Broken b err # post)) = NewRepo ev p (Dir n (pre @ [Broken b err]))"
    by (rule NewRepo_same_walk)
       (simp only: walk_stops_at_error [of "getPath ev p" n pre b err post spawned0])
  show "fst (NewRepo ev p (Dir n (pre @ [Broken b err]))) = fst (NewRepo ev p (Dir n pre))"
    by (rule NewRepo_same_tasks) (rule walk_error_last_tasks)
  assume "fst (walk (Repo_walk (getPath ev p)) (getPath ev p) (Dir n pre) spawned0) = Ok"
  from walk_error_last_logs [OF this, of err b]
    NewRepo_logs [of ev p "Dir n (pre @ [Broken b err])"]
  have "(''walk error:  '' @ err) \<in> set (snd (NewRepo ev p (Dir n (pre @ [Broken b err]))))"
    by blast
  with a show "(''walk error:  '' @ err) \<in> set (snd (NewRepo ev p (Dir n (pre @ Broken b err # post))))"
    by simp
qed

text \<open>
  Claim C4, amended, at a directory with \<open>db.yaml\<close>, the failing \<open>flaky.yaml\<close> and
  \<open>web.yaml\<close>: the node holds \<open>db\<close> only, and the error is logged.
\<close>

theorem C4_walk_ends_at_error_witness:
  "fst (walk (Repo_walk (getPath ev0 ''/srv/inv'')) (getPath ev0 ''/srv/inv'')
          (Dir ''inv'' [File ''db.yaml'']) spawned0) = Ok
   \<and> fst (NewRepo ev0 ''/srv/inv''
          (Dir ''inv'' [File ''db.yaml'',
                        Broken ''flaky.yaml'' ''lstat /srv/inv/flaky.yaml: input/output error'',
                        File ''web.yaml'']))
       = Repo ''inv'' (fmupd ''db'' (Info.Info ''db'') fmempty) fmempty fmempty ''/srv/inv''
   \<and> ''walk error:  lstat /srv/inv/flaky.yaml: input/output error''
       \<in> set (snd (NewRepo ev0 ''/srv/inv''
          (Dir ''inv'' [File ''db.yaml'',
                        Broken ''flaky.yaml'' ''lstat /srv/inv/flaky.yaml: input/output error'',
                        File ''web.yaml''])))"
proof -
  have h: "fst (walk (Repo_walk (getPath ev0 ''/srv/inv'')) (getPath ev0 ''/srv/inv'')
                  (Dir ''inv'' [File ''db.yaml'']) spawned0) = Ok"
    by (simp add: ev0_def walk_eval path_eval)
  note c = C4_walk_ends_at_error [of ev0 "''/srv/inv''" "''inv''" "[File ''db.yaml'']"
      "''flaky.yaml''" "''lstat /srv/inv/flaky.yaml: input/output error''" "[File ''web.yaml'']"]
  from c have 1: "NewRepo ev0 ''/srv/inv''
          (Dir ''inv'' [File ''db.yaml'',
                        Broken ''flaky.yaml'' ''lstat /srv/inv/flaky.yaml: input/output error'',
                        File ''web.yaml''])
       = NewRepo ev0 ''/srv/inv''
          (Dir ''inv'' [File ''db.yaml'',
                        Broken ''flaky.yaml'' ''lstat /srv/inv/flaky.yaml: input/output error''])"
    by simp
  from c have 2: "fst (NewRepo ev0 ''/srv/inv''
          (Dir ''inv'' [File ''db.yaml'',
                        Broken ''flaky.yaml'' ''lstat /srv/inv/flaky.yaml: input/output error'']))
       = fst (NewRepo ev0 ''/srv/inv'' (Dir ''inv'' [File ''db.yaml'']))"
    by simp
  from mp [OF conjunct2 [OF conjunct2 [OF c]] h]
  have 3: "''walk error:  lstat /srv/inv/flaky.yaml: input/output error''
       \<in> set (snd (NewRepo ev0 ''/srv/inv''
          (Dir ''inv'' [File ''db.yaml'',
                        Broken ''flaky.yaml'' ''lstat /srv/inv/flaky.yaml: input/output error'',
                        File ''web.yaml''])))"
    by simp
  from 1 2 have 4: "fst (NewRepo ev0 ''/srv/inv''
          (Dir ''inv'' [File ''db.yaml'',
                        Broken ''flaky.yaml'' ''lstat /srv/inv/flaky.yaml: input/output error'',
                        File ''web.yaml'']))
       = Repo ''inv'' (fmupd ''db'' (Info.Info ''db'') fmempty) fmempty fmempty ''/srv/inv''"
    by (simp add: NewRepo_one_document)
  from h 4 3 show ?thesis by (intro conjI)
qed

subsection \<open>Hidden entries\<close>

text \<open>
  \<open>walk\<close> answers \<open>SkipDir\<close> for every entry whose base name starts with a dot. For a
  directory the walk goes on with the next entry; for a file the walk leaves the
  containing directory.
\<close>

lemma hidden_directory_skipped:
  "HasPrefix (Base (filepath_Join path n)) ''.'' \<Longrightarrow>
     walkNames (Repo_walk rt) path (Dir n ds # es) s = walkNames (Repo_walk rt) path es s"
  by (simp add: Repo_walk_def)

lemma hidden_file_ends_directory:
  "HasPrefix (Base (filepath_Join path n)) ''.'' \<Longrightarrow>
     walkNames (Repo_walk rt) path (File n # es) s = (SkipDir, s)"
  by (simp add: Repo_walk_def)

text \<open>
  The build of the sample directory: nothing below the hidden directory \<open>.git\<close> is
  filed although it holds \<open>config.yaml\<close>, and the entries after it are visited.
\<close>

lemma ev0_simps:
  "getPath ev0 p = p"
  "LoadInfo ev0 p = (if HasSuffix p ''bad.yaml''
                     then (Info.Info [], Some ''yaml: line 1: did not find expected key'')
                     else (Info.Info (asKey p), None))"
  by (simp_all add: ev0_def)

lemma Walk_cluster6:
  "Walk (Repo_walk ''/srv/inv/cluster6'') ''/srv/inv/cluster6''
     (Dir ''cluster6'' [File ''_repo.yaml'', File ''db.yaml'']) spawned0
     = (Ok, \<lparr>tasks = [LoadInfoTask ''/srv/inv/cluster6/_repo.yaml'',
                      LoadInfoTask ''/srv/inv/cluster6/db.yaml''],
             logs = []\<rparr>)"
  by (simp add: walk_eval path_eval)

lemma NewRepo_cluster6:
  "NewRepo ev0 ''/srv/inv/cluster6'' (Dir ''cluster6'' [File ''_repo.yaml'', File ''db.yaml''])
     = (Repo ''cluster6'' (fmupd ''db'' (Info.Info ''db'') fmempty)
          (fmupd ''_repo'' (Info.Info ''_repo'') fmempty) fmempty ''/srv/inv/cluster6'', [])"
  apply (subst NewRepo.simps)
  apply (simp add: ev0_simps Walk_cluster6 path_eval finish_def loadInfo_def)
  done

lemma Walk_tree0:
  "Walk (Repo_walk ''/srv/inv'') ''/srv/inv'' tree0 spawned0
     = (Ok, \<lparr>tasks = [LoadInfoTask ''/srv/inv/_repo.yaml'', LoadInfoTask ''/srv/inv/bad.yaml'',
                      LoadSubrepoTask ''/srv/inv/cluster6''
                        (Dir ''cluster6'' [File ''_repo.yaml'', File ''db.yaml'']),
                      LoadInfoTask ''/srv/inv/db.yaml''],
             logs = []\<rparr>)"
  by (simp add: walk_eval path_eval tree0_def)

lemma NewRepo_tree0:
  "NewRepo ev0 ''/srv/inv'' tree0
     = (Repo ''inv''
          (fmupd ''db'' (Info.Info ''db'') (fmupd [] (Info.Info []) fmempty))
          (fmupd ''_repo'' (Info.Info ''_repo'') fmempty)
          (fmupd ''cluster6''
             (Repo ''cluster6'' (fmupd ''db'' (Info.Info ''db'') fmempty)
                (fmupd ''_repo'' (Info.Info ''_repo'') fmempty) fmempty ''/srv/inv/cluster6'')
             fmempty)
          ''/srv/inv'',
        [''Failed to load info:  yaml: line 1: did not find expected key''])"
  apply (subst NewRepo.simps)
  apply (simp add: ev0_simps Walk_tree0 NewRepo_cluster6 path_eval finish_def loadInfo_def
      loadSubrepo_def)
  done

lemma Walk_hidden_file:
  "Walk (Repo_walk ''/srv/inv'') ''/srv/inv''
     (Dir ''inv'' [File ''.gitignore'', Dir ''cluster6'' [File ''web.yaml''], File ''db.yaml''])
     spawned0
     = (Ok, \<lparr>tasks = [], logs = []\<rparr>)"
  by (simp add: walk_eval path_eval)

text \<open>
  Claim C6 at a directory with the hidden file \<open>.gitignore\<close>, the sub-directory
  \<open>cluster6\<close> and the document \<open>db.yaml\<close>. \<open>walk\<close> answers \<open>SkipDir\<close> for the hidden
  file, which for a file makes \<open>filepath.Walk\<close> leave the containing directory: the
  siblings \<open>cluster6\<close> and \<open>db.yaml\<close> are not visited and the node stays empty, where
  the claim has them visited and filed.
\<close>

theorem C6_hidden_file_ends_directory:
  "NewRepo ev0 ''/srv/inv''
     (Dir ''inv'' [File ''.gitignore'', Dir ''cluster6'' [File ''web.yaml''], File ''db.yaml''])
     = (Repo ''inv'' fmempty fmempty fmempty ''/srv/inv'', [])"
  apply (subst NewRepo.simps)
  apply (simp add: ev0_def Walk_hidden_file path_eval)
  done

end
